theory Spec2Isabelle
  imports Main "HOL-Library.Sublist" "HOL-Library.Word"
begin

section \<open>JavaScript strings\<close>

text \<open>
  A JavaScript string is a sequence of 16-bit code units, and \<open>length\<close>, \<open>indexOf\<close>,
  \<open>substring\<close> and the regular expressions of the plugin (none has the \<open>u\<close> flag) all
  count and compare code units. The model writes a string as a \<^typ>\<open>string\<close>, the list
  of its code units; \<^typ>\<open>char\<close> holds the code units below 256 (ASCII and Latin-1).
\<close>

subsection \<open>Searching\<close>

text \<open>\<open>s.indexOf(pat)\<close>: the first position where \<open>pat\<close> occurs, \<open>None\<close> for \<open>-1\<close>.\<close>

fun indexOf :: "string \<Rightarrow> string \<Rightarrow> nat option" where
  "indexOf [] pat = (if pat = [] then Some 0 else None)"
| "indexOf (c # cs) pat =
     (if prefix pat (c # cs) then Some 0 else map_option Suc (indexOf cs pat))"

definition includes_str :: "string \<Rightarrow> string \<Rightarrow> bool" where
  "includes_str s pat = (indexOf s pat \<noteq> None)"


definition endsWith :: "string \<Rightarrow> string \<Rightarrow> bool" where
  "endsWith s pat = suffix pat s"

text \<open>
  \<open>s.substring(a, b)\<close>: both ends are clamped to the length, and swapped when the
  first is the larger one.
\<close>

definition substring :: "string \<Rightarrow> nat \<Rightarrow> nat \<Rightarrow> string" where
  "substring s a b =
     (let lo = min (min a (length s)) (min b (length s));
          hi = max (min a (length s)) (min b (length s))
      in take (hi - lo) (drop lo s))"

subsection \<open>Replacement patterns\<close>

text \<open>
  \<open>replace\<close> and \<open>replaceAll\<close> with a string as replacement value do not insert it
  verbatim: the replacement is expanded by the abstract operation GetSubstitution.
  With a string as search value there are no capture groups, so the patterns that
  expand are \<open>$$\<close> (a dollar sign), \<open>$&\<close> (the matched text), \<open>$`\<close> (the text before the
  match) and \<open>$'\<close> (the text after it); any other \<open>$\<close> stays as it is.
\<close>

fun getSubstitution :: "string \<Rightarrow> string \<Rightarrow> string \<Rightarrow> string \<Rightarrow> string" where
  "getSubstitution matched pre post [] = []"
| "getSubstitution matched pre post [c] = [c]"
| "getSubstitution matched pre post (c # d # r) =
     (if c = CHR ''$'' \<and> d = CHR ''$'' then CHR ''$'' # getSubstitution matched pre post r
      else if c = CHR ''$'' \<and> d = CHR ''&'' then matched @ getSubstitution matched pre post r
      else if c = CHR ''$'' \<and> d = CHR 0x60 then pre @ getSubstitution matched pre post r
      else if c = CHR ''$'' \<and> d = CHR 0x27 then post @ getSubstitution matched pre post r
      else c # getSubstitution matched pre post (d # r))"

text \<open>\<open>s.replace(pat, rep)\<close> with strings \<open>pat\<close> and \<open>rep\<close>: the first occurrence only.\<close>

definition replace :: "string \<Rightarrow> string \<Rightarrow> string \<Rightarrow> string" where
  "replace s pat rep =
     (case indexOf s pat of
        None \<Rightarrow> s
      | Some i \<Rightarrow>
          take i s
          @ getSubstitution pat (take i s) (drop (i + length pat) s) rep
          @ drop (i + length pat) s)"

text \<open>
  \<open>s.replaceAll(pat, rep)\<close> with strings \<open>pat\<close> and \<open>rep\<close>: the occurrences are found from
  left to right, each search starting behind the previous occurrence (one code unit
  further when \<open>pat\<close> is empty), and each is expanded against the original string:
  \<open>pre\<close> collects the part of the original string already passed.
\<close>

function replaceAll_from :: "string \<Rightarrow> string \<Rightarrow> string \<Rightarrow> string \<Rightarrow> string" where
  "replaceAll_from pat rep pre rest =
     (if pat = [] then
        getSubstitution pat pre rest rep
        @ (case rest of [] \<Rightarrow> [] | c # cs \<Rightarrow> c # replaceAll_from pat rep (pre @ [c]) cs)
      else if prefix pat rest then
        getSubstitution pat pre (drop (length pat) rest) rep
        @ replaceAll_from pat rep (pre @ pat) (drop (length pat) rest)
      else (case rest of [] \<Rightarrow> [] | c # cs \<Rightarrow> c # replaceAll_from pat rep (pre @ [c]) cs))"
  by pat_completeness auto
termination
  by (relation "measure (\<lambda>(pat, rep, pre, rest). length rest)") (auto simp: prefix_def)

declare replaceAll_from.simps [simp del]

definition replaceAll :: "string \<Rightarrow> string \<Rightarrow> string \<Rightarrow> string" where
  "replaceAll s pat rep = replaceAll_from pat rep [] s"

subsection \<open>Trimming, splitting, case\<close>

text \<open>The white space and line terminator code units below 256, which \<open>trim\<close> strips.\<close>

definition isWhiteSpace :: "char \<Rightarrow> bool" where
  "isWhiteSpace c = (c \<in> {CHR 0x09, CHR 0x0A, CHR 0x0B, CHR 0x0C, CHR 0x0D, CHR 0x20, CHR 0xA0})"

definition trim :: "string \<Rightarrow> string" where
  "trim s = rev (dropWhile isWhiteSpace (rev (dropWhile isWhiteSpace s)))"

text \<open>\<open>s.split(sep)\<close> for a separator of one code unit; the result is never empty.\<close>

fun split :: "string \<Rightarrow> char \<Rightarrow> string list" where
  "split [] sep = [[]]"
| "split (c # cs) sep =
     (if c = sep then [] # split cs sep
      else (case split cs sep of [] \<Rightarrow> [[c]] | x # xs \<Rightarrow> (c # x) # xs))"

text \<open>\<open>arr.pop()\<close> read as a value: the last element, \<open>None\<close> for \<open>undefined\<close>.\<close>

definition pop :: "'a list \<Rightarrow> 'a option" where
  "pop xs = (if xs = [] then None else Some (last xs))"

text \<open>
  \<open>toLowerCase\<close> on the code units below 256: the letters \<open>A\<close> to \<open>Z\<close> and the Latin-1
  capitals U+00C0 to U+00DE (without the multiplication sign U+00D7) move up by 32.
\<close>

definition lowerChar :: "char \<Rightarrow> char" where
  "lowerChar c =
     (let n = (of_char c :: nat) in
      if (65 \<le> n \<and> n \<le> 90) \<or> (192 \<le> n \<and> n \<le> 222 \<and> n \<noteq> 215) then char_of (n + 32) else c)"

definition toLowerCase :: "string \<Rightarrow> string" where
  "toLowerCase s = map lowerChar s"

text \<open>\<open>n.toString()\<close> for a natural number: its decimal digits.\<close>

fun numToString :: "nat \<Rightarrow> string" where
  "numToString n =
     (if n < 10 then [char_of (48 + n)]
      else numToString (n div 10) @ [char_of (48 + n mod 10)])"

declare numToString.simps [simp del]

text \<open>\<open>s.padStart(n, c)\<close> for a filler of one code unit.\<close>

definition padStart :: "string \<Rightarrow> nat \<Rightarrow> char \<Rightarrow> string" where
  "padStart s n c = replicate (n - length s) c @ s"

text \<open>\<open>s.charAt(i)\<close>: the empty string when \<open>i\<close> is out of range.\<close>

definition charAt :: "string \<Rightarrow> nat \<Rightarrow> string" where
  "charAt s i = (if i < length s then [s ! i] else [])"

section \<open>Naming engine (\<open>uploaderUtils.ts\<close>)\<close>

text \<open>
  What a \<open>Date\<close> object answers in local time. \<open>getMonth\<close> counts from 0, as in
  JavaScript.
\<close>

record jsDate =
  getFullYear :: nat
  getMonth :: nat
  getDate :: nat
  getHours :: nat
  getMinutes :: nat
  getSeconds :: nat
  getMilliseconds :: nat

text \<open>
  \<open>generateRandomString(length)\<close>. The parameter \<open>randomIndex\<close> gives, for the \<open>i\<close>-th
  round of the loop, the value of \<open>Math.floor(Math.random() * characters.length)\<close>.
\<close>

definition characters :: string where
  "characters = ''ABCDEFGHIJKLMNOPQRSTUVWXYZabcdefghijklmnopqrstuvwxyz0123456789''"

definition generateRandomString :: "(nat \<Rightarrow> nat) \<Rightarrow> nat \<Rightarrow> string" where
  "generateRandomString randomIndex len =
     concat (map (\<lambda>i. charAt characters (randomIndex i)) [0..<len])"

definition timestamp :: "jsDate \<Rightarrow> string" where
  "timestamp now =
     numToString (getFullYear now)
     @ padStart (numToString (getMonth now + 1)) 2 CHR ''0''
     @ padStart (numToString (getDate now)) 2 CHR ''0''
     @ padStart (numToString (getHours now)) 2 CHR ''0''
     @ padStart (numToString (getMinutes now)) 2 CHR ''0''
     @ padStart (numToString (getSeconds now)) 2 CHR ''0''
     @ padStart (numToString (getMilliseconds now)) 3 CHR ''0''"

text \<open>
  \<open>originalName.replace(/\.[^/.]+$/, '')\<close>: the leftmost dot that is followed, up to
  the end of the string, by one or more code units other than \<open>/\<close> and \<open>.\<close> is removed
  together with what follows it.
\<close>

fun stripExtension :: "string \<Rightarrow> string" where
  "stripExtension [] = []"
| "stripExtension (c # cs) =
     (if c = CHR ''.'' then
        (if cs \<noteq> [] \<and> list_all (\<lambda>d. d \<noteq> CHR ''/'' \<and> d \<noteq> CHR ''.'') cs then []
         else c # stripExtension cs)
      else c # stripExtension cs)"

text \<open>\<open>generateUniqueFileName(originalName)\<close>, with the clock reading \<open>now\<close> of its \<open>new Date()\<close>.\<close>

definition generateUniqueFileName :: "jsDate \<Rightarrow> string \<Rightarrow> string" where
  "generateUniqueFileName now originalName =
     (let extension = (case pop (split originalName CHR ''.'') of
                         None \<Rightarrow> ''png''
                       | Some e \<Rightarrow> if e = [] then ''png'' else e)
      in if includes_str (toLowerCase originalName) ''image'' \<or> originalName = ''blob''
         then ''Pasted image '' @ timestamp now @ ''.'' @ extension
         else let nameWithoutExt = stripExtension originalName
              in nameWithoutExt @ '' '' @ timestamp now @ ''.'' @ extension)"

text \<open>
  \<open>generateName(pathTmpl, imageName)\<close>. \<open>date\<close> is the clock reading of its own
  \<open>new Date()\<close>, \<open>now\<close> the later one of \<open>generateUniqueFileName\<close>; \<open>None\<close> is an
  undefined template.
\<close>

definition generateName ::
  "jsDate \<Rightarrow> jsDate \<Rightarrow> (nat \<Rightarrow> nat) \<Rightarrow> string option \<Rightarrow> string \<Rightarrow> string" where
  "generateName date now randomIndex pathTmpl imageName =
     (let year = numToString (getFullYear date);
          month = padStart (numToString (getMonth date + 1)) 2 CHR ''0'';
          day = padStart (numToString (getDate date)) 2 CHR ''0'';
          random = generateRandomString randomIndex 20;
          uniqueFileName = generateUniqueFileName now imageName
      in case pathTmpl of
           None \<Rightarrow> uniqueFileName
         | Some tmpl \<Rightarrow>
             if length (trim tmpl) > 0
             then replace (replace (replace (replace (replace tmpl
                    ''{year}'' year) ''{mon}'' month) ''{day}'' day) ''{random}'' random)
                    ''{filename}'' uniqueFileName
             else uniqueFileName)"

text \<open>
  The regular expression \<open>/https?:\/\/([^/]+)/\<close> tried at the start of \<open>s\<close>: the match
  and its group. After \<open>https\<close> the optional \<open>s\<close> cannot be given back (a colon must
  follow \<open>http\<close> otherwise), and the greedy group, which nothing follows, takes every
  code unit up to the next \<open>/\<close>.
\<close>

definition domainRegex_at :: "string \<Rightarrow> (string \<times> string) option" where
  "domainRegex_at s =
     (if prefix ''https://'' s then
        (let domain = takeWhile (\<lambda>c. c \<noteq> CHR ''/'') (drop 8 s)
         in if domain = [] then None else Some (''https://'' @ domain, domain))
      else if prefix ''http://'' s then
        (let domain = takeWhile (\<lambda>c. c \<noteq> CHR ''/'') (drop 7 s)
         in if domain = [] then None else Some (''http://'' @ domain, domain))
      else None)"

text \<open>The leftmost match in \<open>s\<close>: its index, the match and the group.\<close>

fun domainRegex_exec :: "string \<Rightarrow> (nat \<times> string \<times> string) option" where
  "domainRegex_exec [] = None"
| "domainRegex_exec (c # cs) =
     (case domainRegex_at (c # cs) of
        Some (m, domain) \<Rightarrow> Some (0, m, domain)
      | None \<Rightarrow> map_option (\<lambda>(i, m, domain). (Suc i, m, domain)) (domainRegex_exec cs))"

text \<open>
  \<open>customizeDomainName(url, customDomainName)\<close>. The replacer function of
  \<open>url.replace\<close> returns \<open>match.replace(domain, customDomainName)\<close>, a replacement of
  strings, and what a replacer function returns is inserted as it is.
\<close>

definition customizeDomainName :: "string \<Rightarrow> string \<Rightarrow> string" where
  "customizeDomainName url customDomainName0 =
     (let customDomainName = replaceAll customDomainName0 ''https://'' []
      in if customDomainName \<noteq> [] \<and> trim customDomainName \<noteq> [] then
           (case domainRegex_exec url of
              Some (i, m, domain) \<Rightarrow>
                take i url @ replace m domain customDomainName @ drop (i + length m) url
            | None \<Rightarrow> ''https://'' @ customDomainName @ ''/'' @ url)
         else url)"

text \<open>
  For comparison with \<open>replace\<close>: the replacement of the first occurrence of \<open>pat\<close> by
  \<open>rep\<close> as it is written, with no pattern in it expanded.
\<close>

definition replaceFirst :: "string \<Rightarrow> string \<Rightarrow> string \<Rightarrow> string" where
  "replaceFirst s pat rep =
     (case indexOf s pat of
        None \<Rightarrow> s
      | Some i \<Rightarrow> take i s @ rep @ drop (i + length pat) s)"

section \<open>Reference extractor (\<open>imageTagProcessor.ts\<close>)\<close>

record ImageTag =
  originalText :: string
  altText :: string
  imagePath :: string
  start :: nat
  end' :: nat

subsection \<open>Regular expressions with the \<open>g\<close> flag\<close>

text \<open>
  \<open>regex.exec(content)\<close> for a regular expression with the \<open>g\<close> flag, where \<open>rx\<close> says
  what the expression matches at the start of a string: the search begins at
  \<open>lastIndex\<close> and moves right one code unit at a time, up to the end of \<open>content\<close>. It
  returns the index of the match with the match itself; the caller continues with
  \<open>lastIndex\<close> at the end of the match. \<open>None\<close> is \<open>null\<close>.
\<close>

function regexExec :: "(string \<Rightarrow> 'm option) \<Rightarrow> string \<Rightarrow> nat \<Rightarrow> (nat \<times> 'm) option" where
  "regexExec rx content lastIndex =
     (if length content < lastIndex then None
      else case rx (drop lastIndex content) of
             Some m \<Rightarrow> Some (lastIndex, m)
           | None \<Rightarrow> regexExec rx content (Suc lastIndex))"
  by pat_completeness auto
termination
  by (relation "measure (\<lambda>(rx, content, lastIndex). Suc (length content) - lastIndex)") auto

declare regexExec.simps [simp del]

text \<open>
  \<open>/!\[([^\]]*)\]\(([^)]+)\)/\<close> at the start of \<open>s\<close>: the match, the alt text, the
  path. Each greedy class is followed by the one code unit it excludes, so it takes
  the whole run up to that code unit and giving some of it back never helps.
\<close>

definition mdImageRegex :: "string \<Rightarrow> (string \<times> string \<times> string) option" where
  "mdImageRegex s =
     (if prefix ''!['' s then
        (let alt = takeWhile (\<lambda>c. c \<noteq> CHR '']'') (drop 2 s);
             s1 = dropWhile (\<lambda>c. c \<noteq> CHR '']'') (drop 2 s)
         in if prefix '']('' s1 then
              (let path = takeWhile (\<lambda>c. c \<noteq> CHR '')'') (drop 2 s1);
                   s2 = dropWhile (\<lambda>c. c \<noteq> CHR '')'') (drop 2 s1)
               in if path \<noteq> [] \<and> prefix '')'' s2
                  then Some (''!['' @ alt @ '']('' @ path @ '')'', alt, path)
                  else None)
            else None)
      else None)"

text \<open>\<open>/!\[\[([^\]]+)\]\]/\<close> at the start of \<open>s\<close>: the match and the path.\<close>

definition wikiImageRegex :: "string \<Rightarrow> (string \<times> string) option" where
  "wikiImageRegex s =
     (if prefix ''![['' s then
        (let path = takeWhile (\<lambda>c. c \<noteq> CHR '']'') (drop 3 s);
             s1 = dropWhile (\<lambda>c. c \<noteq> CHR '']'') (drop 3 s)
         in if path \<noteq> [] \<and> prefix '']]'' s1
            then Some (''![['' @ path @ '']]'', path)
            else None)
      else None)"

subsection \<open>\<open>extractImageTags\<close>\<close>

text \<open>The first \<open>while\<close> loop of \<open>extractImageTags\<close>, from a given \<open>lastIndex\<close>.\<close>

function mdImageTags :: "string \<Rightarrow> nat \<Rightarrow> ImageTag list" where
  "mdImageTags content lastIndex =
     (case regexExec mdImageRegex content lastIndex of
        None \<Rightarrow> []
      | Some (index, matched, alt, path) \<Rightarrow>
          \<lparr>originalText = matched, altText = alt, imagePath = path,
           start = index, end' = index + length matched\<rparr>
          # mdImageTags content (index + length matched))"
  by pat_completeness auto
termination
proof -
  have ex: "regexExec rx c i = Some (j, m) \<Longrightarrow> i \<le> j \<and> j \<le> length c \<and> rx (drop j c) = Some m"
    for rx :: "string \<Rightarrow> 'm option" and c i j m
  proof (induction rx c i rule: regexExec.induct)
    case (1 rx content lastIndex)
    then show ?case
      by (subst (asm) (2) regexExec.simps) (auto split: if_splits option.splits)
  qed
  have ne: "mdImageRegex s = Some (m, a, p) \<Longrightarrow> m \<noteq> []" for s m a p
    by (auto simp: mdImageRegex_def Let_def split: if_splits)
  show ?thesis
    apply (relation "measure (\<lambda>(content, lastIndex). Suc (length content) - lastIndex)")
     apply simp
    subgoal for content lastIndex x2 index y matched z alt path
      using ex [of mdImageRegex content lastIndex index "(matched, alt, path)"]
        ne [of "drop index content" matched alt path]
      by (cases matched) auto
    done
qed

declare mdImageTags.simps [simp del]

text \<open>The second \<open>while\<close> loop; wiki links have no alt text.\<close>

function wikiImageTags :: "string \<Rightarrow> nat \<Rightarrow> ImageTag list" where
  "wikiImageTags content lastIndex =
     (case regexExec wikiImageRegex content lastIndex of
        None \<Rightarrow> []
      | Some (index, matched, path) \<Rightarrow>
          \<lparr>originalText = matched, altText = [], imagePath = path,
           start = index, end' = index + length matched\<rparr>
          # wikiImageTags content (index + length matched))"
  by pat_completeness auto
termination
proof -
  have ex: "regexExec rx c i = Some (j, m) \<Longrightarrow> i \<le> j \<and> j \<le> length c \<and> rx (drop j c) = Some m"
    for rx :: "string \<Rightarrow> 'm option" and c i j m
  proof (induction rx c i rule: regexExec.induct)
    case (1 rx content lastIndex)
    then show ?case
      by (subst (asm) (2) regexExec.simps) (auto split: if_splits option.splits)
  qed
  have ne: "wikiImageRegex s = Some (m, p) \<Longrightarrow> m \<noteq> []" for s m p
    by (auto simp: wikiImageRegex_def Let_def split: if_splits)
  show ?thesis
    apply (relation "measure (\<lambda>(content, lastIndex). Suc (length content) - lastIndex)")
     apply simp
    subgoal for content lastIndex x2 index y matched path
      using ex [of wikiImageRegex content lastIndex index "(matched, path)"]
        ne [of "drop index content" matched path]
      by (cases matched) auto
    done
qed

declare wikiImageTags.simps [simp del]

definition extractImageTags :: "string \<Rightarrow> ImageTag list" where
  "extractImageTags content = mdImageTags content 0 @ wikiImageTags content 0"


subsection \<open>\<open>isVideoAsset\<close>\<close>














section \<open>Publish orchestrator (\<open>main.ts\<close>)\<close>

text \<open>An exception in flight: the \<open>Error\<close> object thrown, with its message.\<close>

datatype jsError = Error string | TypeError string

type_synonym bytes = "8 word list"

subsection \<open>The host\<close>





subsection \<open>\<open>resolveImagePath\<close>\<close>



subsection \<open>Uploading one file\<close>




subsection \<open>\<open>uploadLocalImagesInContent\<close>\<close>










subsection \<open>The outcome of each reference\<close>








subsection \<open>A small vault\<close>





section \<open>Request signer (the \<open>R2Uploader\<close> that signs with the Web Crypto API)\<close>

subsection \<open>Octets and text\<close>

text \<open>\<open>b.toString(16).padStart(2, '0')\<close> for an octet, and the hexadecimal text of a buffer.\<close>

definition hexDigit :: "nat \<Rightarrow> char" where
  "hexDigit n = ''0123456789abcdef'' ! (n mod 16)"

definition toString16 :: "nat \<Rightarrow> string" where
  "toString16 n = (if n < 16 then [hexDigit n] else [hexDigit (n div 16), hexDigit n])"

definition toHex :: "bytes \<Rightarrow> string" where
  "toHex hashArray = concat (map (\<lambda>b. padStart (toString16 (unat b)) 2 CHR ''0'') hashArray)"

text \<open>\<open>new TextEncoder().encode(s)\<close>: UTF-8, here for code units below 256.\<close>

definition encodeChar :: "char \<Rightarrow> bytes" where
  "encodeChar c =
     (let n = (of_char c :: nat) in
      if n < 128 then [of_nat n] else [of_nat (192 + n div 64), of_nat (128 + n mod 64)])"

definition encode :: "string \<Rightarrow> bytes" where
  "encode s = concat (map encodeChar s)"

subsection \<open>The Web Crypto API\<close>

text \<open>
  The two primitives of \<open>crypto.subtle\<close>: SHA-256 of a buffer, and HMAC-SHA256 of a
  buffer under a raw key.
\<close>

record SubtleCrypto =
  sha256Digest :: "bytes \<Rightarrow> bytes"
  hmacSha256Sign :: "bytes \<Rightarrow> bytes \<Rightarrow> bytes"

text \<open>
  What a caller may hand to \<open>importKey\<close> as key data: a buffer, or (as JavaScript has
  no types at run time) a string. \<open>importKey('raw', keyData, ...)\<close> takes a buffer
  source; any other value is refused with a \<open>TypeError\<close>.
\<close>

datatype keyData = Buffer bytes | StringValue string

definition importKey :: "keyData \<Rightarrow> jsError + bytes" where
  "importKey k =
     (case k of
        Buffer b \<Rightarrow> Inr b
      | StringValue s \<Rightarrow> Inl (TypeError ''The provided value is not of type BufferSource''))"

subsection \<open>The uploader\<close>

record R2Uploader =
  accessKeyId :: string
  secretAccessKey :: string
  endpoint :: string
  bucketName :: string
  pathTemplate :: string
  customDomainName :: string

text \<open>\<open>sha256(data)\<close> for a string and for a buffer: the digest in hexadecimal.\<close>

definition sha256_string :: "SubtleCrypto \<Rightarrow> string \<Rightarrow> string" where
  "sha256_string cr s = toHex (sha256Digest cr (encode s))"

definition sha256_buffer :: "SubtleCrypto \<Rightarrow> bytes \<Rightarrow> string" where
  "sha256_buffer cr body = toHex (sha256Digest cr body)"

text \<open>\<open>hmacSha256(key, data)\<close>: it returns the MAC as hexadecimal text, not as a buffer.\<close>

definition hmacSha256 :: "SubtleCrypto \<Rightarrow> keyData \<Rightarrow> string \<Rightarrow> jsError + string" where
  "hmacSha256 cr key datum =
     (case importKey key of
        Inl e \<Rightarrow> Inl e
      | Inr cryptoKey \<Rightarrow> Inr (toHex (hmacSha256Sign cr cryptoKey (encode datum))))"

text \<open>
  \<open>getSignatureKey\<close>. Each \<open>await\<close> of a rejected promise throws, which ends the
  function: the \<open>Inl\<close> branches. The strings \<open>kDate\<close>, \<open>kRegion\<close>, \<open>kService\<close> and
  \<open>kSigning\<close> are passed on as keys.
\<close>

definition getSignatureKey ::
  "SubtleCrypto \<Rightarrow> string \<Rightarrow> string \<Rightarrow> string \<Rightarrow> string \<Rightarrow> string \<Rightarrow> jsError + string" where
  "getSignatureKey cr key dateStamp regionName serviceName stringToSign =
     (case hmacSha256 cr (Buffer (encode (''AWS4'' @ key))) dateStamp of
        Inl e \<Rightarrow> Inl e
      | Inr kDate \<Rightarrow>
          (case hmacSha256 cr (StringValue kDate) regionName of
             Inl e \<Rightarrow> Inl e
           | Inr kRegion \<Rightarrow>
               (case hmacSha256 cr (StringValue kRegion) serviceName of
                  Inl e \<Rightarrow> Inl e
                | Inr kService \<Rightarrow>
                    (case hmacSha256 cr (StringValue kService) ''aws4_request'' of
                       Inl e \<Rightarrow> Inl e
                     | Inr kSigning \<Rightarrow> hmacSha256 cr (StringValue kSigning) stringToSign))))"

text \<open>
  \<open>isoString.replace(/[:\-]|\.\d{3}/g, '')\<close>: every colon and hyphen goes, and every dot
  with the three digits after it.
\<close>

definition isDigit :: "char \<Rightarrow> bool" where
  "isDigit c = (48 \<le> (of_char c :: nat) \<and> (of_char c :: nat) \<le> 57)"

function stripDateSeparators :: "string \<Rightarrow> string" where
  "stripDateSeparators [] = []"
| "stripDateSeparators (c # cs) =
     (if c = CHR '':'' \<or> c = CHR ''-'' then stripDateSeparators cs
      else if c = CHR ''.'' \<and> 3 \<le> length cs \<and> list_all isDigit (take 3 cs)
           then stripDateSeparators (drop 3 cs)
      else c # stripDateSeparators cs)"
  by pat_completeness auto
termination
  by (relation "measure length") auto

text \<open>\<open>endpoint.replace(/^https?:\/\//, '')\<close>: the scheme at the very start goes.\<close>

definition stripScheme :: "string \<Rightarrow> string" where
  "stripScheme s =
     (if prefix ''https://'' s then drop 8 s
      else if prefix ''http://'' s then drop 7 s
      else s)"

text \<open>
  The canonical request and the string to sign, as \<open>createSignedRequest\<close> builds them
  from the ISO text \<open>isoString\<close> of the current instant (\<open>now.toISOString()\<close>).
\<close>

definition dateStampOf :: "string \<Rightarrow> string" where
  "dateStampOf isoString = filter (\<lambda>c. c \<noteq> CHR ''-'') (take 10 isoString)"

definition amzDateOf :: "string \<Rightarrow> string" where
  "amzDateOf isoString = stripDateSeparators isoString"

definition canonicalRequestOf ::
  "SubtleCrypto \<Rightarrow> R2Uploader \<Rightarrow> string \<Rightarrow> string \<Rightarrow> string \<Rightarrow> bytes \<Rightarrow> string" where
  "canonicalRequestOf cr this isoString method key body =
     (let amzDate = amzDateOf isoString;
          canonicalUri = ''/'' @ key;
          canonicalQueryString = [];
          canonicalHeaders =
            ''host:'' @ stripScheme (endpoint this) @ [CHR 0x0A]
            @ ''x-amz-content-sha256:'' @ sha256_buffer cr body @ [CHR 0x0A]
            @ ''x-amz-date:'' @ amzDate @ [CHR 0x0A];
          signedHeaders = ''host;x-amz-content-sha256;x-amz-date'';
          payloadHash = sha256_buffer cr body
      in method @ [CHR 0x0A] @ canonicalUri @ [CHR 0x0A] @ canonicalQueryString @ [CHR 0x0A]
         @ canonicalHeaders @ [CHR 0x0A] @ signedHeaders @ [CHR 0x0A] @ payloadHash)"

definition credentialScopeOf :: "string \<Rightarrow> string" where
  "credentialScopeOf isoString = dateStampOf isoString @ ''/'' @ ''auto'' @ ''/'' @ ''s3'' @ ''/aws4_request''"

definition stringToSignOf ::
  "SubtleCrypto \<Rightarrow> R2Uploader \<Rightarrow> string \<Rightarrow> string \<Rightarrow> string \<Rightarrow> bytes \<Rightarrow> string" where
  "stringToSignOf cr this isoString method key body =
     ''AWS4-HMAC-SHA256'' @ [CHR 0x0A] @ amzDateOf isoString @ [CHR 0x0A] @ credentialScopeOf isoString
     @ [CHR 0x0A] @ sha256_string cr (canonicalRequestOf cr this isoString method key body)"

text \<open>\<open>createSignedRequest\<close>: the headers, as the list of their names and values.\<close>

definition createSignedRequest ::
  "SubtleCrypto \<Rightarrow> R2Uploader \<Rightarrow> string \<Rightarrow> string \<Rightarrow> string \<Rightarrow> string \<Rightarrow> bytes
   \<Rightarrow> jsError + (string \<times> string) list" where
  "createSignedRequest cr this isoString method key contentType body =
     (let dateStamp = dateStampOf isoString;
          amzDate = amzDateOf isoString;
          region = ''auto'';
          service = ''s3'';
          signedHeaders = ''host;x-amz-content-sha256;x-amz-date'';
          payloadHash = sha256_buffer cr body;
          algorithm = ''AWS4-HMAC-SHA256'';
          credentialScope = credentialScopeOf isoString;
          stringToSign = stringToSignOf cr this isoString method key body
      in case getSignatureKey cr (secretAccessKey this) dateStamp region service stringToSign of
           Inl e \<Rightarrow> Inl e
         | Inr signature \<Rightarrow>
             Inr [(''Authorization'',
                   algorithm @ '' Credential='' @ accessKeyId this @ ''/'' @ credentialScope
                   @ '', SignedHeaders='' @ signedHeaders @ '', Signature='' @ signature),
                  (''x-amz-content-sha256'', payloadHash),
                  (''x-amz-date'', amzDate),
                  (''Content-Type'', contentType)])"

section \<open>Properties of the string operations\<close>

text \<open>A replacement without a dollar sign is inserted as it is.\<close>

lemma getSubstitution_no_dollar:
  "CHR ''$'' \<notin> set rep \<Longrightarrow> getSubstitution m pre post rep = rep"
  by (induction m pre post rep rule: getSubstitution.induct) auto

lemma replace_no_dollar:
  "CHR ''$'' \<notin> set rep \<Longrightarrow> replace s pat rep = replaceFirst s pat rep"
  by (simp add: replace_def replaceFirst_def getSubstitution_no_dollar split: option.splits)

section \<open>Properties of the naming engine\<close>

text \<open>
  C6. A file name without a dot should get the default extension \<open>png\<close>. The code takes
  \<open>originalName.split('.').pop() || 'png'\<close>, and for a name without a dot the last
  piece of the split is the whole name: the default is reached by the empty name only.
  For the name \<open>blob\<close>, which \<open>generateUniqueFileName\<close> itself asks about, the generated
  name ends with \<open>.blob\<close> and not with \<open>.png\<close>.
\<close>

theorem generateUniqueFileName_blob:
  "generateUniqueFileName now ''blob'' = ''Pasted image '' @ timestamp now @ ''.blob''
   \<and> \<not> endsWith (generateUniqueFileName now ''blob'') ''.png''"
  by (simp add: generateUniqueFileName_def pop_def endsWith_def suffix_to_prefix)

text \<open>
  The same for every name without a dot that is not empty: the extension is the name.
\<close>

lemma split_no_separator: "sep \<notin> set s \<Longrightarrow> split s sep = [s]"
  by (induction s) auto

lemma generateUniqueFileName_no_dot:
  assumes "CHR ''.'' \<notin> set originalName" and "originalName \<noteq> []"
  shows "endsWith (generateUniqueFileName now originalName) (''.'' @ originalName)"
  using assms
  by (simp add: generateUniqueFileName_def split_no_separator pop_def endsWith_def Let_def
      suffix_def)

text \<open>
  C7. With a template that is not blank, \<open>generateName\<close> should put the generated
  unique file name, as it is, in the place of the first \<open>{filename}\<close>. The code calls
  \<open>replace\<close> with the name as replacement string, so the replacement patterns in the
  name are expanded: for the file \<open>a$$b.png\<close> the unique name has two dollar signs and
  the generated key one.
\<close>

theorem generateName_filename_dollar:
  "generateUniqueFileName
     \<lparr>getFullYear = 2024, getMonth = 0, getDate = 15, getHours = 10, getMinutes = 30,
      getSeconds = 45, getMilliseconds = 123\<rparr> ''a$$b.png''
     = ''a$$b 20240115103045123.png''
   \<and> generateName date
     \<lparr>getFullYear = 2024, getMonth = 0, getDate = 15, getHours = 10, getMinutes = 30,
      getSeconds = 45, getMilliseconds = 123\<rparr> randomIndex (Some ''{filename}'') ''a$$b.png''
     = ''a$b 20240115103045123.png''"
proof (rule conjI)
  show "generateUniqueFileName
     \<lparr>getFullYear = 2024, getMonth = 0, getDate = 15, getHours = 10, getMinutes = 30,
      getSeconds = 45, getMilliseconds = 123\<rparr> ''a$$b.png''
     = ''a$$b 20240115103045123.png''"
    by code_simp
next
  show "generateName date
     \<lparr>getFullYear = 2024, getMonth = 0, getDate = 15, getHours = 10, getMinutes = 30,
      getSeconds = 45, getMilliseconds = 123\<rparr> randomIndex (Some ''{filename}'') ''a$$b.png''
     = ''a$b 20240115103045123.png''"
    apply (simp add: generateName_def Let_def trim_def isWhiteSpace_def replace_def)
    apply code_simp
    done
qed

text \<open>
  The rest of C7 is what the code does. The dates and the random string are digits
  and letters, so for an image name without a dollar sign every replacement is
  literal: \<open>generateName\<close> is the unique file name for an undefined or blank template,
  and otherwise the template with the first occurrence of each placeholder replaced,
  one placeholder after the other. The random string has the twenty characters asked
  for, taken from the alphabet of letters and digits.
\<close>

lemma digit_no_dollar: "(n::nat) < 10 \<Longrightarrow> char_of (48 + n) \<noteq> CHR ''$''"
proof
  assume n: "n < 10" and "char_of (48 + n) = CHR ''$''"
  then have "(of_char (char_of (48 + n)) :: nat) = of_char CHR ''$''" by simp
  moreover from n have "(48 + n) mod 256 = 48 + n" by simp
  ultimately show False by simp
qed

lemma numToString_no_dollar: "CHR ''$'' \<notin> set (numToString n)"
proof (induction n rule: numToString.induct)
  case (1 n)
  show ?case
  proof (cases "n < 10")
    case True
    with digit_no_dollar [of n] show ?thesis
      by (subst numToString.simps) auto
  next
    case False
    have "n mod 10 < 10" by simp
    from digit_no_dollar [OF this] "1.IH" [OF False] False show ?thesis
      by (subst numToString.simps) auto
  qed
qed

lemma padStart_no_dollar:
  "CHR ''$'' \<notin> set s \<Longrightarrow> c \<noteq> CHR ''$'' \<Longrightarrow> CHR ''$'' \<notin> set (padStart s n c)"
  by (auto simp: padStart_def)

lemma timestamp_no_dollar: "CHR ''$'' \<notin> set (timestamp now)"
  by (simp add: timestamp_def numToString_no_dollar padStart_no_dollar)

lemma generateRandomString_alphanumeric:
  "set (generateRandomString randomIndex len) \<subseteq> set characters"
  by (auto simp: generateRandomString_def charAt_def split: if_splits)

lemma generateRandomString_length:
  assumes "\<And>i. i < len \<Longrightarrow> randomIndex i < 62"
  shows "length (generateRandomString randomIndex len) = len"
proof -
  have c: "length characters = 62" by (simp add: characters_def)
  have eq: "map (\<lambda>i. length (charAt characters (randomIndex i))) [0..<len]
      = map (\<lambda>i. 1) [0..<len]"
    using assms c by (intro map_cong) (auto simp: charAt_def)
  have "sum_list (map (\<lambda>i. length (charAt characters (randomIndex i))) [0..<len])
      = sum_list (map (\<lambda>i. 1) [0..<len])"
    by (simp only: eq)
  also have "\<dots> = len" by (simp add: sum_list_triv)
  finally show ?thesis
    by (simp add: generateRandomString_def length_concat comp_def)
qed

lemma generateRandomString_no_dollar: "CHR ''$'' \<notin> set (generateRandomString randomIndex len)"
proof -
  have "CHR ''$'' \<notin> set characters" by (simp add: characters_def)
  with generateRandomString_alphanumeric show ?thesis by blast
qed

lemma set_split: "x \<in> set (split s sep) \<Longrightarrow> set x \<subseteq> set s"
proof (induction s arbitrary: x)
  case Nil
  then show ?case by simp
next
  case (Cons a s)
  show ?case
  proof (cases "a = sep")
    case True
    with Cons show ?thesis by auto
  next
    case False
    show ?thesis
    proof (cases "split s sep")
      case Nil
      with False Cons.prems show ?thesis by auto
    next
      case (Cons y ys)
      with False Cons.prems have "x = a # y \<or> x \<in> set ys" by auto
      with Cons Cons.IH [of y] Cons.IH [of x] show ?thesis by auto
    qed
  qed
qed

lemma set_stripExtension: "set (stripExtension s) \<subseteq> set s"
  by (induction s) auto

lemma generateUniqueFileName_no_dollar:
  assumes "CHR ''$'' \<notin> set originalName"
  shows "CHR ''$'' \<notin> set (generateUniqueFileName now originalName)"
proof -
  have ne: "split originalName CHR ''.'' \<noteq> []" by (cases originalName) (auto split: list.splits)
  then have "last (split originalName CHR ''.'') \<in> set (split originalName CHR ''.'')" by simp
  from set_split [OF this] assms
  have ext: "CHR ''$'' \<notin> set (last (split originalName CHR ''.''))" by auto
  from set_stripExtension [of originalName] assms
  have stem: "CHR ''$'' \<notin> set (stripExtension originalName)" by auto
  from ne ext stem show ?thesis
    by (simp add: generateUniqueFileName_def Let_def pop_def timestamp_no_dollar)
qed

lemma generateName_literal:
  assumes "CHR ''$'' \<notin> set imageName"
  shows "generateName date now randomIndex None imageName = generateUniqueFileName now imageName"
    and "generateName date now randomIndex (Some tmpl) imageName =
     (if trim tmpl = [] then generateUniqueFileName now imageName
      else replaceFirst (replaceFirst (replaceFirst (replaceFirst (replaceFirst tmpl
             ''{year}'' (numToString (getFullYear date)))
             ''{mon}'' (padStart (numToString (getMonth date + 1)) 2 CHR ''0''))
             ''{day}'' (padStart (numToString (getDate date)) 2 CHR ''0''))
             ''{random}'' (generateRandomString randomIndex 20))
             ''{filename}'' (generateUniqueFileName now imageName))"
  using generateUniqueFileName_no_dollar [OF assms, of now]
  by (simp_all add: generateName_def Let_def replace_no_dollar numToString_no_dollar
      padStart_no_dollar generateRandomString_no_dollar)

section \<open>Properties of \<open>customizeDomainName\<close>\<close>

lemma takeWhile_host:
  "CHR ''/'' \<notin> set host \<Longrightarrow> rest = [] \<or> hd rest = CHR ''/'' \<Longrightarrow>
   takeWhile (\<lambda>c. c \<noteq> CHR ''/'') (host @ rest) = host"
  by (cases rest) (auto simp: takeWhile_append)

lemma domainRegex_exec_prefix:
  assumes "scheme = ''http://'' \<or> scheme = ''https://''" and "host \<noteq> []"
    and "CHR ''/'' \<notin> set host" and "rest = [] \<or> hd rest = CHR ''/''"
  shows "domainRegex_exec (scheme @ host @ rest) = Some (0, scheme @ host, host)"
  using assms(1)
proof
  assume s: "scheme = ''http://''"
  with assms takeWhile_host [of host rest] show ?thesis
    by (simp add: domainRegex_at_def)
next
  assume s: "scheme = ''https://''"
  with assms takeWhile_host [of host rest] show ?thesis
    by (simp add: domainRegex_at_def)
qed

lemma customizeDomainName_host:
  assumes "c = replaceAll customDomain ''https://'' []" and "c \<noteq> []" and "trim c \<noteq> []"
    and "CHR ''$'' \<notin> set c" and "scheme = ''http://'' \<or> scheme = ''https://''"
    and "host \<noteq> []" and "CHR ''/'' \<notin> set host" and "rest = [] \<or> hd rest = CHR ''/''"
    and "indexOf (scheme @ host) host = Some (length scheme)"
  shows "customizeDomainName (scheme @ host @ rest) customDomain = scheme @ c @ rest"
proof -
  from assms have ex: "domainRegex_exec (scheme @ host @ rest) = Some (0, scheme @ host, host)"
    by (intro domainRegex_exec_prefix)
  from assms have rp: "replace (scheme @ host) host c = scheme @ c"
    by (simp add: replace_def getSubstitution_no_dollar)
  from assms(2,3) ex rp show ?thesis
    by (simp add: customizeDomainName_def assms(1) [symmetric] Let_def)
qed

text \<open>
  The last condition holds for every host with a dot in it: the text before the host's
  place is \<open>http://\<close> or \<open>https://\<close>, which has none.
\<close>

lemma indexOf_skip:
  "(\<And>k. k < length xs \<Longrightarrow> \<not> prefix pat (drop k xs @ ys)) \<Longrightarrow>
   indexOf (xs @ ys) pat = map_option (\<lambda>i. length xs + i) (indexOf ys pat)"
proof (induction xs)
  case Nil
  show ?case by (simp add: option.map_ident)
next
  case (Cons x xs)
  from Cons.prems [of 0] have here: "\<not> prefix pat (x # xs @ ys)" by simp
  have "\<not> prefix pat (drop k xs @ ys)" if "k < length xs" for k
    using Cons.prems [of "Suc k"] that by simp
  from Cons.IH [OF this] here show ?case
    by (simp add: option.map_comp comp_def)
qed

lemma not_prefix_shifted:
  assumes "d \<noteq> []" and "c \<notin> set d" and "c \<in> set host"
  shows "\<not> prefix host (d @ host)"
proof
  assume "prefix host (d @ host)"
  then obtain t where eq: "d @ host = host @ t" by (auto simp: prefix_def)
  from assms(3) obtain a b where host: "host = a @ c # b" and a: "c \<notin> set a"
    by (meson split_list_first)
  have "(host @ t) ! length a = c" by (simp add: host nth_append)
  with eq have at: "(d @ host) ! length a = c" by simp
  show False
  proof (cases "length a < length d")
    case True
    then have "(d @ host) ! length a = d ! length a" by (simp add: nth_append)
    with at True assms(2) show False by (metis nth_mem)
  next
    case False
    with assms(1) have lt: "length a - length d < length a" by (cases d) auto
    from False have "(d @ host) ! length a = host ! (length a - length d)"
      by (simp add: nth_append)
    also from lt have "\<dots> = a ! (length a - length d)" by (simp add: host nth_append)
    finally have "a ! (length a - length d) = c" using at by simp
    with lt a show False by (metis nth_mem)
  qed
qed

lemma indexOf_scheme_host:
  assumes "scheme = ''http://'' \<or> scheme = ''https://''" and "CHR ''.'' \<in> set host"
  shows "indexOf (scheme @ host) host = Some (length scheme)"
proof -
  from assms(2) have ne: "host \<noteq> []" by auto
  then have self: "indexOf host host = Some 0" by (cases host) simp_all
  have "\<not> prefix host (drop k scheme @ host)" if "k < length scheme" for k
  proof (rule not_prefix_shifted [OF _ _ assms(2)])
    from that show "drop k scheme \<noteq> []" by simp
    from assms(1) have "CHR ''.'' \<notin> set scheme" by auto
    then show "CHR ''.'' \<notin> set (drop k scheme)" by (auto dest: in_set_dropD)
  qed
  from indexOf_skip [of scheme host host, OF this] self show ?thesis by simp
qed

lemma customizeDomainName_dotted_host:
  assumes "c = replaceAll customDomain ''https://'' []" and "c \<noteq> []" and "trim c \<noteq> []"
    and "CHR ''$'' \<notin> set c" and "scheme = ''http://'' \<or> scheme = ''https://''"
    and "CHR ''.'' \<in> set host" and "CHR ''/'' \<notin> set host" and "rest = [] \<or> hd rest = CHR ''/''"
  shows "customizeDomainName (scheme @ host @ rest) customDomain = scheme @ c @ rest"
  using assms indexOf_scheme_host [OF assms(5,6)]
  by (intro customizeDomainName_host) auto

text \<open>
  C5 as it is stated fails on the code in two ways that the code has by design. The
  expression \<open>/https?:\/\/([^/]+)/\<close> accepts both schemes and only its group, the host,
  is replaced: the URL keeps its scheme, so an \<open>http\<close> URL is not turned into
  \<open>https://{customDomain}\<close>. And a custom domain that is not empty but blank passes the
  guard \<open>customDomainName.trim() !== ''\<close> no more than the empty one: the URL is
  returned unchanged.
\<close>

theorem customizeDomainName_counterexample:
  "customizeDomainName ''http://a.com/k.png'' ''cdn.example.com'' = ''http://cdn.example.com/k.png''
   \<and> customizeDomainName ''http://a.com/k.png'' ''cdn.example.com''
       \<noteq> ''https://cdn.example.com/k.png''
   \<and> customizeDomainName ''bucket/key.png'' '' '' = ''bucket/key.png''
   \<and> customizeDomainName ''bucket/key.png'' '' '' \<noteq> ''https:// /bucket/key.png''"
  by code_simp

text \<open>
  C5, amended. Let \<open>c\<close> be the custom domain with every \<open>https://\<close> removed. When \<open>c\<close>
  is empty or blank, \<open>customizeDomainName\<close> returns the URL unchanged. Otherwise, a URL
  in which the expression finds no scheme and host becomes \<open>https://\<close>, \<open>c\<close>, a slash
  and the URL; and in a URL that begins with \<open>http://\<close> or \<open>https://\<close> and a host, the host
  is replaced by \<open>c\<close> and the scheme stays, given that \<open>c\<close> has no dollar sign and that
  the host does not occur in the text of scheme and host before its own place (as is
  the case for a host with a dot). The example of the specification holds.
\<close>

theorem customizeDomainName_amended:
  "(let c = replaceAll customDomain ''https://'' [] in
     (c = [] \<or> trim c = [] \<longrightarrow> customizeDomainName url customDomain = url)
     \<and> (c \<noteq> [] \<and> trim c \<noteq> [] \<and> domainRegex_exec url = None
          \<longrightarrow> customizeDomainName url customDomain = ''https://'' @ c @ ''/'' @ url)
     \<and> (c \<noteq> [] \<and> trim c \<noteq> [] \<and> CHR ''$'' \<notin> set c
          \<and> (scheme = ''http://'' \<or> scheme = ''https://'')
          \<and> host \<noteq> [] \<and> CHR ''/'' \<notin> set host \<and> (rest = [] \<or> hd rest = CHR ''/'')
          \<and> indexOf (scheme @ host) host = Some (length scheme)
          \<longrightarrow> customizeDomainName (scheme @ host @ rest) customDomain = scheme @ c @ rest))
   \<and> customizeDomainName ''https://acct.r2.cloudflarestorage.com/bucket/key.png''
         ''cdn.example.com'' = ''https://cdn.example.com/bucket/key.png''"
proof (rule conjI)
  define c where "c = replaceAll customDomain ''https://'' []"
  have 1: "customizeDomainName url customDomain = url" if "c = [] \<or> trim c = []"
    using that by (auto simp: customizeDomainName_def c_def Let_def)
  have 2: "customizeDomainName url customDomain = ''https://'' @ c @ ''/'' @ url"
    if "c \<noteq> []" "trim c \<noteq> []" "domainRegex_exec url = None"
    using that by (simp add: customizeDomainName_def c_def Let_def)
  have 3: "customizeDomainName (scheme @ host @ rest) customDomain = scheme @ c @ rest"
    if "c \<noteq> []" "trim c \<noteq> []" "CHR ''$'' \<notin> set c"
      "scheme = ''http://'' \<or> scheme = ''https://''"
      "host \<noteq> []" "CHR ''/'' \<notin> set host" "rest = [] \<or> hd rest = CHR ''/''"
      "indexOf (scheme @ host) host = Some (length scheme)"
    using c_def that by (rule customizeDomainName_host)
  from 1 2 3 show "let c = replaceAll customDomain ''https://'' [] in
     (c = [] \<or> trim c = [] \<longrightarrow> customizeDomainName url customDomain = url)
     \<and> (c \<noteq> [] \<and> trim c \<noteq> [] \<and> domainRegex_exec url = None
          \<longrightarrow> customizeDomainName url customDomain = ''https://'' @ c @ ''/'' @ url)
     \<and> (c \<noteq> [] \<and> trim c \<noteq> [] \<and> CHR ''$'' \<notin> set c
          \<and> (scheme = ''http://'' \<or> scheme = ''https://'')
          \<and> host \<noteq> [] \<and> CHR ''/'' \<notin> set host \<and> (rest = [] \<or> hd rest = CHR ''/'')
          \<and> indexOf (scheme @ host) host = Some (length scheme)
          \<longrightarrow> customizeDomainName (scheme @ host @ rest) customDomain = scheme @ c @ rest)"
    unfolding Let_def c_def [symmetric] by blast
next
  show "customizeDomainName ''https://acct.r2.cloudflarestorage.com/bucket/key.png''
         ''cdn.example.com'' = ''https://cdn.example.com/bucket/key.png''"
    by code_simp
qed

theorem customizeDomainName_amended_witness:
  "replaceAll ''https://cdn.example.com'' ''https://'' [] = ''cdn.example.com''
   \<and> domainRegex_exec ''bucket/key.png'' = None
   \<and> customizeDomainName ''bucket/key.png'' ''https://cdn.example.com''
       = ''https://cdn.example.com/bucket/key.png''
   \<and> indexOf ''http://a.com'' ''a.com'' = Some 7
   \<and> customizeDomainName ''http://a.com/k.png'' ''https://cdn.example.com''
       = ''http://cdn.example.com/k.png''
   \<and> customizeDomainName ''bucket/key.png'' ''https://'' = ''bucket/key.png''"
proof -
  have c: "replaceAll ''https://cdn.example.com'' ''https://'' [] = ''cdn.example.com''"
    by code_simp
  have e: "replaceAll ''https://'' ''https://'' [] = []"
    by code_simp
  have none: "domainRegex_exec ''bucket/key.png'' = None"
    by code_simp
  have idx: "indexOf (''http://'' @ ''a.com'') ''a.com'' = Some (length ''http://'')"
    by code_simp
  have t: "trim ''cdn.example.com'' \<noteq> []"
    by code_simp
  from customizeDomainName_amended
    [where customDomain = "''https://cdn.example.com''" and url = "''bucket/key.png''"
       and scheme = "''http://''" and host = "''a.com''" and rest = "''/k.png''"]
    c none idx t
  have "customizeDomainName ''bucket/key.png'' ''https://cdn.example.com''
       = ''https://cdn.example.com/bucket/key.png''"
    and "customizeDomainName ''http://a.com/k.png'' ''https://cdn.example.com''
       = ''http://cdn.example.com/k.png''"
    by (simp_all add: Let_def)
  moreover from customizeDomainName_amended
    [where customDomain = "''https://''" and url = "''bucket/key.png''"] e
  have "customizeDomainName ''bucket/key.png'' ''https://'' = ''bucket/key.png''"
    by (simp add: Let_def)
  ultimately show ?thesis using c none idx by simp
qed

section \<open>Properties of the request signer\<close>

text \<open>
  C1. The signature should be the hexadecimal text of HMAC-SHA256 under \<open>kSigning\<close>,
  where every key of the chain is the raw MAC of the step before. In the code
  \<open>hmacSha256\<close> returns hexadecimal text, and \<open>getSignatureKey\<close> passes that text to the
  next \<open>hmacSha256\<close> as key; \<open>importKey\<close> refuses a string, so the second step of the
  chain throws and no signature is ever returned, whatever the key, the date stamp and
  the string to sign.
\<close>

theorem getSignatureKey_throws:
  "getSignatureKey cr key dateStamp regionName serviceName stringToSign
     = Inl (TypeError ''The provided value is not of type BufferSource'')"
  by (simp add: getSignatureKey_def hmacSha256_def importKey_def)

text \<open>
  C2. \<open>createSignedRequest\<close> does build the canonical request and the string to sign in
  the layout of the claim, but it awaits \<open>getSignatureKey\<close> before it returns, so the
  exception of C1 leaves it too: no header is returned.
\<close>

theorem createSignedRequest_throws:
  "canonicalRequestOf cr this isoString method key body =
     method @ [CHR 0x0A] @ ''/'' @ key @ [CHR 0x0A] @ [CHR 0x0A]
     @ ''host:'' @ stripScheme (endpoint this) @ [CHR 0x0A]
     @ ''x-amz-content-sha256:'' @ toHex (sha256Digest cr body) @ [CHR 0x0A]
     @ ''x-amz-date:'' @ amzDateOf isoString @ [CHR 0x0A]
     @ [CHR 0x0A] @ ''host;x-amz-content-sha256;x-amz-date'' @ [CHR 0x0A]
     @ toHex (sha256Digest cr body)
   \<and> stringToSignOf cr this isoString method key body =
     ''AWS4-HMAC-SHA256'' @ [CHR 0x0A] @ amzDateOf isoString @ [CHR 0x0A]
     @ dateStampOf isoString @ ''/auto/s3/aws4_request'' @ [CHR 0x0A]
     @ toHex (sha256Digest cr (encode (canonicalRequestOf cr this isoString method key body)))
   \<and> createSignedRequest cr this isoString method key contentType body
     = Inl (TypeError ''The provided value is not of type BufferSource'')"
  by (simp add: canonicalRequestOf_def stringToSignOf_def credentialScopeOf_def
      sha256_buffer_def sha256_string_def createSignedRequest_def getSignatureKey_def
      hmacSha256_def importKey_def)

section \<open>Properties of the reference extractor\<close>

subsection \<open>What \<open>exec\<close> and the two expressions return\<close>

lemma regexExec_Some:
  "regexExec rx c i = Some (j, m) \<Longrightarrow>
     i \<le> j \<and> j \<le> length c \<and> rx (drop j c) = Some m \<and> (\<forall>k. i \<le> k \<and> k < j \<longrightarrow> rx (drop k c) = None)"
proof (induction rx c i rule: regexExec.induct)
  case (1 rx content lastIndex)
  show ?case
  proof (cases "rx (drop lastIndex content)")
    case None
    with "1.prems" have le: "\<not> length content < lastIndex"
      and rec: "regexExec rx content (Suc lastIndex) = Some (j, m)"
      by (subst (asm) regexExec.simps; simp split: if_splits)+
    from "1.IH" [OF le None rec] None show ?thesis
      by (metis Suc_leD Suc_leI le_neq_implies_less)
  next
    case (Some a)
    with "1.prems" show ?thesis
      by (subst (asm) regexExec.simps) (auto split: if_splits)
  qed
qed


lemma mdImageRegex_Some:
  assumes "mdImageRegex s = Some (m, a, p)"
  shows "m = ''!['' @ a @ '']('' @ p @ '')'' \<and> prefix m s \<and> CHR '']'' \<notin> set a
         \<and> p \<noteq> [] \<and> CHR '')'' \<notin> set p"
proof -
  let ?r = "drop 2 s"
  let ?s1 = "dropWhile (\<lambda>c. c \<noteq> CHR '']'') ?r"
  let ?r2 = "drop 2 ?s1"
  let ?s2 = "dropWhile (\<lambda>c. c \<noteq> CHR '')'') ?r2"
  from assms have p1: "prefix ''!['' s" and p2: "prefix '']('' ?s1" and p3: "prefix '')'' ?s2"
    and a: "a = takeWhile (\<lambda>c. c \<noteq> CHR '']'') ?r" and p: "p = takeWhile (\<lambda>c. c \<noteq> CHR '')'') ?r2"
    and m: "m = ''!['' @ a @ '']('' @ p @ '')''" and pne: "p \<noteq> []"
    by (auto simp: mdImageRegex_def Let_def split: if_splits)
  from p1 have s: "s = ''!['' @ ?r" by (auto simp: prefix_def)
  have r: "?r = a @ ?s1" by (simp add: a)
  from p2 have s1: "?s1 = '']('' @ ?r2" by (auto simp: prefix_def)
  have r2: "?r2 = p @ ?s2" by (simp add: p)
  from p3 obtain t where s2: "?s2 = '')'' @ t" by (auto simp: prefix_def)
  have "s = m @ t"
    by (subst s, subst r, subst s1, subst r2, subst s2) (simp add: m)
  moreover have "CHR '']'' \<notin> set a" unfolding a by (auto dest: set_takeWhileD)
  moreover have "CHR '')'' \<notin> set p" unfolding p by (auto dest: set_takeWhileD)
  ultimately show ?thesis using m pne by (auto simp: prefix_def)
qed

lemma wikiImageRegex_Some:
  assumes "wikiImageRegex s = Some (m, p)"
  shows "m = ''![['' @ p @ '']]'' \<and> prefix m s \<and> p \<noteq> [] \<and> CHR '']'' \<notin> set p"
proof -
  let ?r = "drop 3 s"
  let ?s1 = "dropWhile (\<lambda>c. c \<noteq> CHR '']'') ?r"
  from assms have p1: "prefix ''![['' s" and p2: "prefix '']]'' ?s1"
    and p: "p = takeWhile (\<lambda>c. c \<noteq> CHR '']'') ?r"
    and m: "m = ''![['' @ p @ '']]''" and pne: "p \<noteq> []"
    by (auto simp: wikiImageRegex_def Let_def split: if_splits)
  from p1 have s: "s = ''![['' @ ?r" by (auto simp: prefix_def)
  have r: "?r = p @ ?s1" by (simp add: p)
  from p2 obtain t where s1: "?s1 = '']]'' @ t" by (auto simp: prefix_def)
  have "s = m @ t"
    by (subst s, subst r, subst s1) (simp add: m)
  moreover have "CHR '']'' \<notin> set p" unfolding p by (auto dest: set_takeWhileD)
  ultimately show ?thesis using m pne by (auto simp: prefix_def)
qed

subsection \<open>The two loops\<close>

lemma prefix_drop_substring:
  assumes "prefix m (drop j c)"
  shows "j + length m \<le> length c \<or> m = []" and "substring c j (j + length m) = m"
proof -
  from assms obtain t where d: "drop j c = m @ t" by (auto simp: prefix_def)
  then have len: "length c - j = length m + length t"
    by (metis length_append length_drop)
  then show "j + length m \<le> length c \<or> m = []" by (cases m) auto
  have tk: "take (length m) (drop j c) = m" by (simp add: d)
  show "substring c j (j + length m) = m"
  proof (cases "j \<le> length c")
    case True
    with len have "j + length m \<le> length c" by simp
    with True tk show ?thesis by (simp add: substring_def Let_def min_def max_def)
  next
    case False
    with d have "m = []" by simp
    then show ?thesis by (simp add: substring_def Let_def)
  qed
qed

lemma mdImageTags_tag:
  "t \<in> set (mdImageTags c i) \<Longrightarrow>
     i \<le> start t \<and> start t < end' t \<and> end' t = start t + length (originalText t) \<and> end' t \<le> length c
     \<and> mdImageRegex (drop (start t) c) = Some (originalText t, altText t, imagePath t)"
proof (induction c i rule: mdImageTags.induct)
  case (1 content lastIndex)
  show ?case
  proof (cases "regexExec mdImageRegex content lastIndex")
    case None
    with "1.prems" show ?thesis by (subst (asm) mdImageTags.simps) simp
  next
    case (Some r)
    obtain j m a p where r: "r = (j, m, a, p)" by (cases r) auto
    from Some r have ex: "regexExec mdImageRegex content lastIndex = Some (j, (m, a, p))" by simp
    note E = regexExec_Some [OF ex]
    note M = mdImageRegex_Some [of "drop j content" m a p]
    from E M have mne: "m \<noteq> []" and pre: "prefix m (drop j content)" by auto
    from prefix_drop_substring(1) [OF pre] mne have bound: "j + length m \<le> length content" by simp
    let ?t0 = "\<lparr>originalText = m, altText = a, imagePath = p, start = j, end' = j + length m\<rparr>"
    from "1.prems" ex have "t = ?t0 \<or> t \<in> set (mdImageTags content (j + length m))"
      by (subst (asm) mdImageTags.simps) simp
    then show ?thesis
    proof
      assume "t = ?t0"
      with E mne bound show ?thesis by simp
    next
      assume "t \<in> set (mdImageTags content (j + length m))"
      from "1.IH" [OF ex refl refl refl this] E show ?thesis by auto
    qed
  qed
qed



lemma wikiImageTags_tag:
  "t \<in> set (wikiImageTags c i) \<Longrightarrow>
     i \<le> start t \<and> start t < end' t \<and> end' t = start t + length (originalText t) \<and> end' t \<le> length c
     \<and> wikiImageRegex (drop (start t) c) = Some (originalText t, imagePath t) \<and> altText t = []"
proof (induction c i rule: wikiImageTags.induct)
  case (1 content lastIndex)
  show ?case
  proof (cases "regexExec wikiImageRegex content lastIndex")
    case None
    with "1.prems" show ?thesis by (subst (asm) wikiImageTags.simps) simp
  next
    case (Some r)
    obtain j m p where r: "r = (j, m, p)" by (cases r) auto
    from Some r have ex: "regexExec wikiImageRegex content lastIndex = Some (j, (m, p))" by simp
    note E = regexExec_Some [OF ex]
    note M = wikiImageRegex_Some [of "drop j content" m p]
    from E M have mne: "m \<noteq> []" and pre: "prefix m (drop j content)" by auto
    from prefix_drop_substring(1) [OF pre] mne have bound: "j + length m \<le> length content" by simp
    let ?t0 = "\<lparr>originalText = m, altText = [], imagePath = p, start = j, end' = j + length m\<rparr>"
    from "1.prems" ex have "t = ?t0 \<or> t \<in> set (wikiImageTags content (j + length m))"
      by (subst (asm) wikiImageTags.simps) simp
    then show ?thesis
    proof
      assume "t = ?t0"
      with E mne bound show ?thesis by simp
    next
      assume "t \<in> set (wikiImageTags content (j + length m))"
      from "1.IH" [OF ex refl refl this] E show ?thesis by auto
    qed
  qed
qed



subsection \<open>The claims\<close>

text \<open>
  C10. For every text, every tag that \<open>extractImageTags\<close> returns has
  \<open>end = start + originalText.length\<close>, lies inside the text, and
  \<open>content.substring(start, end)\<close> is its \<open>originalText\<close>: the offsets locate the
  matched text in the input.
\<close>

theorem extractImageTags_offsets:
  "\<forall>t \<in> set (extractImageTags content).
     end' t = start t + length (originalText t) \<and> end' t \<le> length content
     \<and> substring content (start t) (end' t) = originalText t"
proof
  fix t
  assume "t \<in> set (extractImageTags content)"
  then consider (md) "t \<in> set (mdImageTags content 0)" | (wiki) "t \<in> set (wikiImageTags content 0)"
    by (auto simp: extractImageTags_def)
  then have "end' t = start t + length (originalText t) \<and> end' t \<le> length content
      \<and> prefix (originalText t) (drop (start t) content)"
  proof cases
    case md
    from mdImageTags_tag [OF md] mdImageRegex_Some [of "drop (start t) content"]
    show ?thesis by auto
  next
    case wiki
    from wikiImageTags_tag [OF wiki] wikiImageRegex_Some [of "drop (start t) content"]
    show ?thesis by auto
  qed
  with prefix_drop_substring(2) [of "originalText t" "start t" content]
  show "end' t = start t + length (originalText t) \<and> end' t \<le> length content
     \<and> substring content (start t) (end' t) = originalText t"
    by simp
qed

theorem extractImageTags_offsets_witness:
  "\<lparr>originalText = ''![[c.png]]'', altText = [], imagePath = ''c.png'', start = 14, end' = 24\<rparr>
     \<in> set (extractImageTags ''x ![a](b.png) ![[c.png]] y'')
   \<and> substring ''x ![a](b.png) ![[c.png]] y'' 14 24 = ''![[c.png]]''"
proof -
  let ?t = "\<lparr>originalText = ''![[c.png]]'', altText = [], imagePath = ''c.png'',
             start = 14, end' = 24\<rparr>"
  have mem: "?t \<in> set (extractImageTags ''x ![a](b.png) ![[c.png]] y'')"
    by code_simp
  from extractImageTags_offsets [of "''x ![a](b.png) ![[c.png]] y''"] mem
  have "substring ''x ![a](b.png) ![[c.png]] y'' (start ?t) (end' ?t) = originalText ?t"
    by blast
  with mem show ?thesis by simp
qed



section \<open>Properties of \<open>isVideoAsset\<close>\<close>









section \<open>Properties of the publish orchestrator\<close>

subsection \<open>The loops, reference by reference\<close>












subsection \<open>Two identical embeds\<close>




























end
